theory Spec2Isabelle
  imports Main "HOL-Library.Word"
begin

section \<open>Ed448 signatures of the CRACEN driver (cracenpsa/src/ed448.c)\<close>

text \<open>
  The file ed448.c sequences hash and curve primitives over stack buffers. The model
  keeps that shape: a buffer is a list of bytes, a pointer into a buffer is an offset,
  a call of a primitive reads its operands from the buffers, and what the primitive
  wrote is stored back at the destination offset. Every function returns its status
  together with the buffers it leaves behind, so that every \<^verbatim>\<open>return\<close> of the source
  is a branch of the model.
\<close>

subsection \<open>Bytes, buffers and constants\<close>

type_synonym byte = "8 word"
type_synonym bytes = "byte list"

text \<open>
  Modelled from the spec: the sizes of silexpk/ed448.h, a header that is not among the
  sources. The spec gives 57 bytes for keys, points and scalars and 114 bytes for
  \<^verbatim>\<open>SX_ED448_DGST_SZ\<close>.
\<close>

definition SX_ED448_SZ :: nat where
  "SX_ED448_SZ = 57"

definition SX_ED448_PT_SZ :: nat where
  "SX_ED448_PT_SZ = 57"

definition SX_ED448_DGST_SZ :: nat where
  "SX_ED448_DGST_SZ = 57 * 2"

text \<open>
  Modelled from the spec: \<^verbatim>\<open>SX_OK\<close> of cracen/statuscodes.h, the one status that the
  source compares with; every other integer is a failure.
\<close>

definition SX_OK :: int where
  "SX_OK = 0"

definition AREA2_MEM_OFFSET :: nat where
  "AREA2_MEM_OFFSET = 57"

definition AREA4_MEM_OFFSET :: nat where
  "AREA4_MEM_OFFSET = 171"

definition dom4 :: bytes where
  "dom4 = [0x53, 0x69, 0x67, 0x45, 0x64, 0x34, 0x34, 0x38]"

text \<open>\<open>rd mem p n\<close> are the \<open>n\<close> bytes at offset \<open>p\<close>; \<open>wr mem p d\<close> stores \<open>d\<close> there.\<close>

definition rd :: "bytes \<Rightarrow> nat \<Rightarrow> nat \<Rightarrow> bytes" where
  "rd mem p n = take n (drop p mem)"

definition wr :: "bytes \<Rightarrow> nat \<Rightarrow> bytes \<Rightarrow> bytes" where
  "wr mem p d = take p mem @ d @ drop (p + length d) mem"

text \<open>
  Modelled from the spec: \<^verbatim>\<open>safe_memset(dest, dest_size, ch, n)\<close> and
  \<^verbatim>\<open>safe_memzero(dest, dest_size)\<close> of cracen/mem_helpers.h, which is not among the
  sources. The spec has them zero the region they are given; the fill never goes past
  \<open>dest_size\<close>.
\<close>

definition safe_memset :: "bytes \<Rightarrow> nat \<Rightarrow> nat \<Rightarrow> byte \<Rightarrow> nat \<Rightarrow> bytes" where
  "safe_memset mem dest dest_size ch n = wr mem dest (replicate (min n dest_size) ch)"

definition safe_memzero :: "bytes \<Rightarrow> nat \<Rightarrow> nat \<Rightarrow> bytes" where
  "safe_memzero mem dest dest_size = safe_memset mem dest dest_size 0 dest_size"

subsection \<open>The primitives that ed448.c calls\<close>

text \<open>
  Modelled from the spec: the hash algorithm descriptor of sxsymcrypt/hashdefs.h, which is
  not among the sources. ed448.c uses one descriptor, SHAKE256 with 114 bytes of output.
\<close>

datatype sxhashalg = sxhashalg_shake256_114

fun sx_hash_get_digestsz :: "sxhashalg \<Rightarrow> nat" where
  "sx_hash_get_digestsz sxhashalg_shake256_114 = 114"

text \<open>
  The hash engine (\<^verbatim>\<open>cracen_hash_input\<close>, \<^verbatim>\<open>cracen_hash_all_inputs\<close>), the curve
  operations (\<^verbatim>\<open>sx_ed448_ptmult\<close>, \<^verbatim>\<open>sx_ed448_sign\<close>, \<^verbatim>\<open>sx_ed448_verify\<close>) and
  \<^verbatim>\<open>decode_scalar_448\<close> live outside ed448.c, so they are a parameter of every function
  of the model. A primitive is a function of the operands it reads. It returns its status
  and the bytes it wrote at the start of its output buffer; the caller's model never
  stores more than the size of that buffer, and a primitive that failed may have written
  nothing, or anything. A list of hash inputs is the list of the byte strings that the
  pointer and length pairs of the source denote.
\<close>

record prims =
  cracen_hash_input :: "bytes \<Rightarrow> sxhashalg \<Rightarrow> int \<times> bytes"
  cracen_hash_all_inputs :: "bytes list \<Rightarrow> sxhashalg \<Rightarrow> int \<times> bytes"
  sx_ed448_ptmult :: "bytes \<Rightarrow> int \<times> bytes"
  sx_ed448_sign :: "bytes \<Rightarrow> bytes \<Rightarrow> bytes \<Rightarrow> int \<times> bytes"
  sx_ed448_verify :: "bytes \<Rightarrow> bytes \<Rightarrow> bytes \<Rightarrow> bytes \<Rightarrow> int"
  decode_scalar_448 :: "bytes \<Rightarrow> bytes"

subsection \<open>The two hash steps of signing\<close>

text \<open>
  \<^verbatim>\<open>ed448_calculate_r(workmem, ...)\<close>: \<open>mem\<close> is the buffer that \<open>workmem\<close> points
  into. The digest goes to \<open>workmem + SX_ED448_DGST_SZ\<close>.
\<close>

definition ed448_calculate_r :: "prims \<Rightarrow> bytes \<Rightarrow> nat \<Rightarrow> bytes \<Rightarrow> bool \<Rightarrow> int \<times> bytes" where
  "ed448_calculate_r P mem workmem message prehash =
     (let hash_array = [dom4, rd mem workmem SX_ED448_SZ, message];
          offset = (if prehash then 0 else 1);
          input_count = 3 - offset;
          (status, out) = cracen_hash_all_inputs P (take input_count (drop offset hash_array))
                            sxhashalg_shake256_114
      in (status, wr mem (workmem + SX_ED448_DGST_SZ)
                    (take (sx_hash_get_digestsz sxhashalg_shake256_114) out)))"

text \<open>
  \<^verbatim>\<open>ed448_calculate_k(workmem, point_r, ...)\<close>: the public key is read at \<open>workmem\<close>
  and the digest is written over it.
\<close>

definition ed448_calculate_k :: "prims \<Rightarrow> bytes \<Rightarrow> nat \<Rightarrow> bytes \<Rightarrow> bytes \<Rightarrow> bool \<Rightarrow> int \<times> bytes" where
  "ed448_calculate_k P mem workmem point_r message prehash =
     (let hash_array = [dom4, rd point_r 0 SX_ED448_SZ, rd mem workmem SX_ED448_SZ, message];
          offset = (if prehash then 0 else 1);
          input_count = 4 - offset;
          (status, out) = cracen_hash_all_inputs P (take input_count (drop offset hash_array))
                            sxhashalg_shake256_114
      in (status, wr mem workmem (take (sx_hash_get_digestsz sxhashalg_shake256_114) out)))"

subsection \<open>Signing\<close>

text \<open>
  The two stack arrays of \<^verbatim>\<open>ed448_sign_internal\<close>, \<^verbatim>\<open>workmem[5 * SX_ED448_SZ]\<close> and
  \<^verbatim>\<open>pnt_r[SX_ED448_DGST_SZ]\<close>. C does not initialise them, so what they hold on
  entry is an argument of the model.
\<close>

record sign_frame =
  sf_workmem :: bytes
  sf_pnt_r :: bytes

text \<open>
  What a sign call leaves behind: the returned status, the caller's signature buffer,
  and the two stack arrays as they are at the \<^verbatim>\<open>return\<close>.
\<close>

record sign_result =
  sr_status :: int
  sr_signature :: bytes
  sr_workmem :: bytes
  sr_pnt_r :: bytes

definition ed448_sign_internal ::
  "prims \<Rightarrow> sign_frame \<Rightarrow> bytes \<Rightarrow> bytes \<Rightarrow> bytes \<Rightarrow> bool \<Rightarrow> sign_result" where
  "ed448_sign_internal P fr priv_key signature message prehash =
     (let workmem = sf_workmem fr;
          pnt_r = sf_pnt_r fr;
          area_1 = 0;
          area_2 = AREA2_MEM_OFFSET;
          area_4 = AREA4_MEM_OFFSET;
          (status, out) = cracen_hash_input P (rd priv_key 0 SX_ED448_SZ) sxhashalg_shake256_114;
          workmem = wr workmem area_1 (take (sx_hash_get_digestsz sxhashalg_shake256_114) out)
      in if status \<noteq> SX_OK
         then \<lparr>sr_status = status, sr_signature = signature, sr_workmem = workmem, sr_pnt_r = pnt_r\<rparr>
         else
     (let (status, workmem) = ed448_calculate_r P workmem area_2 message prehash
      in if status \<noteq> SX_OK
         then \<lparr>sr_status = status, sr_signature = signature, sr_workmem = workmem, sr_pnt_r = pnt_r\<rparr>
         else
     (let (status, out) = sx_ed448_ptmult P (rd workmem area_4 SX_ED448_DGST_SZ);
          pnt_r = wr pnt_r 0 (take SX_ED448_PT_SZ out)
      in if status \<noteq> SX_OK
         then \<lparr>sr_status = status, sr_signature = signature, sr_workmem = workmem, sr_pnt_r = pnt_r\<rparr>
         else
     (let workmem = wr workmem area_1
                      (take SX_ED448_SZ (decode_scalar_448 P (rd workmem area_1 SX_ED448_SZ)));
          workmem = safe_memset workmem area_2 (5 * SX_ED448_SZ - SX_ED448_SZ) 0 SX_ED448_SZ;
          (status, out) = sx_ed448_ptmult P (rd workmem area_1 SX_ED448_DGST_SZ);
          workmem = wr workmem area_2 (take SX_ED448_PT_SZ out)
      in if status \<noteq> SX_OK
         then \<lparr>sr_status = status, sr_signature = signature, sr_workmem = workmem, sr_pnt_r = pnt_r\<rparr>
         else
     (let (status, workmem) = ed448_calculate_k P workmem area_2 pnt_r message prehash
      in if status \<noteq> SX_OK
         then \<lparr>sr_status = status, sr_signature = signature, sr_workmem = workmem, sr_pnt_r = pnt_r\<rparr>
         else
     (let (status, out) = sx_ed448_sign P (rd workmem area_2 SX_ED448_DGST_SZ)
                            (rd workmem area_4 SX_ED448_DGST_SZ) (rd workmem area_1 SX_ED448_SZ);
          pnt_r = wr pnt_r SX_ED448_PT_SZ (take SX_ED448_SZ out)
      in if status \<noteq> SX_OK
         then \<lparr>sr_status = status, sr_signature = signature, sr_workmem = workmem, sr_pnt_r = pnt_r\<rparr>
         else
     (let signature = wr signature 0 (rd pnt_r 0 SX_ED448_DGST_SZ);
          workmem = safe_memzero workmem 0 (5 * SX_ED448_SZ)
      in \<lparr>sr_status = status, sr_signature = signature, sr_workmem = workmem,
          sr_pnt_r = pnt_r\<rparr>)))))))"

definition cracen_ed448_sign :: "prims \<Rightarrow> sign_frame \<Rightarrow> bytes \<Rightarrow> bytes \<Rightarrow> bytes \<Rightarrow> sign_result" where
  "cracen_ed448_sign P fr priv_key signature message =
     ed448_sign_internal P fr priv_key signature message False"

text \<open>
  \<^verbatim>\<open>cracen_ed448ph_sign\<close> has one more stack array, \<^verbatim>\<open>hashedmessage\<close>. When the hash of
  the message fails, \<^verbatim>\<open>ed448_sign_internal\<close> is never entered and its frame is returned
  as it was.
\<close>

definition cracen_ed448ph_sign ::
  "prims \<Rightarrow> bytes \<Rightarrow> sign_frame \<Rightarrow> bytes \<Rightarrow> bytes \<Rightarrow> bytes \<Rightarrow> bool \<Rightarrow> sign_result" where
  "cracen_ed448ph_sign P hashedmessage fr priv_key signature message is_message =
     (if is_message then
        (let (status, out) = cracen_hash_input P message sxhashalg_shake256_114;
             hashedmessage = wr hashedmessage 0
                               (take (sx_hash_get_digestsz sxhashalg_shake256_114) out)
         in if status \<noteq> SX_OK
            then \<lparr>sr_status = status, sr_signature = signature, sr_workmem = sf_workmem fr,
                  sr_pnt_r = sf_pnt_r fr\<rparr>
            else ed448_sign_internal P fr priv_key signature
                   (rd hashedmessage 0 SX_ED448_DGST_SZ) True)
      else ed448_sign_internal P fr priv_key signature message True)"

subsection \<open>Verifying\<close>

text \<open>The status of a verify call and its stack array \<^verbatim>\<open>digest\<close> at the return.\<close>

record verify_result =
  vr_status :: int
  vr_digest :: bytes

definition ed448_verify_internal ::
  "prims \<Rightarrow> bytes \<Rightarrow> bytes \<Rightarrow> bytes \<Rightarrow> bytes \<Rightarrow> bool \<Rightarrow> verify_result" where
  "ed448_verify_internal P digest pub_key message signature prehash =
     (let ed448_sz = SX_ED448_SZ;
          offset = (if prehash then 0 else 1);
          input_count = 4 - offset;
          hash_array = [dom4, rd signature 0 ed448_sz, rd pub_key 0 ed448_sz, message];
          (status, out) = cracen_hash_all_inputs P (take input_count (drop offset hash_array))
                            sxhashalg_shake256_114;
          digest = wr digest 0 (take (sx_hash_get_digestsz sxhashalg_shake256_114) out)
      in if status \<noteq> SX_OK
         then \<lparr>vr_status = status, vr_digest = digest\<rparr>
         else
     (let status = sx_ed448_verify P (rd digest 0 SX_ED448_DGST_SZ) (rd pub_key 0 SX_ED448_PT_SZ)
                     (rd signature SX_ED448_SZ SX_ED448_SZ) (rd signature 0 SX_ED448_PT_SZ)
      in \<lparr>vr_status = status, vr_digest = digest\<rparr>))"

definition cracen_ed448_verify :: "prims \<Rightarrow> bytes \<Rightarrow> bytes \<Rightarrow> bytes \<Rightarrow> bytes \<Rightarrow> verify_result" where
  "cracen_ed448_verify P digest pub_key message signature =
     ed448_verify_internal P digest pub_key message signature False"

definition cracen_ed448ph_verify ::
  "prims \<Rightarrow> bytes \<Rightarrow> bytes \<Rightarrow> bytes \<Rightarrow> bytes \<Rightarrow> bytes \<Rightarrow> bool \<Rightarrow> verify_result" where
  "cracen_ed448ph_verify P message_digest digest pub_key message signature is_message =
     (if is_message then
        (let (status, out) = cracen_hash_input P message sxhashalg_shake256_114;
             message_digest = wr message_digest 0
                                (take (sx_hash_get_digestsz sxhashalg_shake256_114) out)
         in if status \<noteq> SX_OK
            then \<lparr>vr_status = status, vr_digest = digest\<rparr>
            else ed448_verify_internal P digest pub_key (rd message_digest 0 SX_ED448_DGST_SZ)
                   signature True)
      else ed448_verify_internal P digest pub_key message signature True)"

subsection \<open>Deriving the public key\<close>

text \<open>
  The status of \<^verbatim>\<open>cracen_ed448_create_pubkey\<close>, the caller's \<^verbatim>\<open>pub_key\<close> buffer and the
  stack array \<^verbatim>\<open>digest\<close> at the return.
\<close>

record pubkey_result =
  pk_status :: int
  pk_pub_key :: bytes
  pk_digest :: bytes

definition cracen_ed448_create_pubkey :: "prims \<Rightarrow> bytes \<Rightarrow> bytes \<Rightarrow> bytes \<Rightarrow> pubkey_result" where
  "cracen_ed448_create_pubkey P digest priv_key pub_key =
     (let pub_key_A = SX_ED448_SZ;
          (status, out) = cracen_hash_input P (rd priv_key 0 SX_ED448_SZ) sxhashalg_shake256_114;
          digest = wr digest 0 (take (sx_hash_get_digestsz sxhashalg_shake256_114) out)
      in if status \<noteq> SX_OK
         then \<lparr>pk_status = status, pk_pub_key = pub_key, pk_digest = digest\<rparr>
         else
     (let digest = wr digest 0 (take SX_ED448_SZ (decode_scalar_448 P (rd digest 0 SX_ED448_SZ)));
          digest = safe_memset digest pub_key_A SX_ED448_SZ 0 SX_ED448_SZ;
          (status, out) = sx_ed448_ptmult P (rd digest 0 SX_ED448_DGST_SZ);
          digest = wr digest pub_key_A (take SX_ED448_PT_SZ out)
      in if status \<noteq> SX_OK
         then \<lparr>pk_status = status, pk_pub_key = pub_key, pk_digest = digest\<rparr>
         else
     (let pub_key = wr pub_key 0 (rd digest pub_key_A SX_ED448_SZ);
          digest = safe_memzero digest 0 SX_ED448_DGST_SZ
      in \<lparr>pk_status = status, pk_pub_key = pub_key, pk_digest = digest\<rparr>)))"

subsection \<open>The values a sign call computes\<close>

text \<open>
  The entities of the spec's data model, each as the output of the primitive call that
  produces it in \<^verbatim>\<open>ed448_sign_internal\<close>: the digest of the private key, the secret
  scalar decoded from its first half, the nonce digest r, the encoded point R, the
  encoded public key A, the challenge digest k and the encoded scalar S.
\<close>

definition sign_key_digest :: "prims \<Rightarrow> bytes \<Rightarrow> int \<times> bytes" where
  "sign_key_digest P priv_key = cracen_hash_input P (rd priv_key 0 57) sxhashalg_shake256_114"

definition sign_secret_scalar :: "prims \<Rightarrow> bytes \<Rightarrow> bytes" where
  "sign_secret_scalar P priv_key =
     decode_scalar_448 P (rd (snd (sign_key_digest P priv_key)) 0 57)"

definition sign_r_digest :: "prims \<Rightarrow> bytes \<Rightarrow> bytes \<Rightarrow> bool \<Rightarrow> int \<times> bytes" where
  "sign_r_digest P priv_key message prehash =
     cracen_hash_all_inputs P
       (if prehash then [dom4, rd (snd (sign_key_digest P priv_key)) 57 57, message]
        else [rd (snd (sign_key_digest P priv_key)) 57 57, message])
       sxhashalg_shake256_114"

definition sign_point_R :: "prims \<Rightarrow> bytes \<Rightarrow> bytes \<Rightarrow> bool \<Rightarrow> int \<times> bytes" where
  "sign_point_R P priv_key message prehash =
     sx_ed448_ptmult P (snd (sign_r_digest P priv_key message prehash))"

definition sign_pubkey_A :: "prims \<Rightarrow> bytes \<Rightarrow> int \<times> bytes" where
  "sign_pubkey_A P priv_key =
     sx_ed448_ptmult P (sign_secret_scalar P priv_key @ replicate 57 0)"

definition sign_k_digest :: "prims \<Rightarrow> bytes \<Rightarrow> bytes \<Rightarrow> bool \<Rightarrow> int \<times> bytes" where
  "sign_k_digest P priv_key message prehash =
     cracen_hash_all_inputs P
       (if prehash
        then [dom4, snd (sign_point_R P priv_key message prehash),
              snd (sign_pubkey_A P priv_key), message]
        else [snd (sign_point_R P priv_key message prehash),
              snd (sign_pubkey_A P priv_key), message])
       sxhashalg_shake256_114"

definition sign_scalar_S :: "prims \<Rightarrow> bytes \<Rightarrow> bytes \<Rightarrow> bool \<Rightarrow> int \<times> bytes" where
  "sign_scalar_S P priv_key message prehash =
     sx_ed448_sign P (snd (sign_k_digest P priv_key message prehash))
       (snd (sign_r_digest P priv_key message prehash)) (sign_secret_scalar P priv_key)"

text \<open>The status of the first step that fails, in the order of the source.\<close>

definition sign_status :: "prims \<Rightarrow> bytes \<Rightarrow> bytes \<Rightarrow> bool \<Rightarrow> int" where
  "sign_status P priv_key message prehash =
     (if fst (sign_key_digest P priv_key) \<noteq> SX_OK then fst (sign_key_digest P priv_key)
      else if fst (sign_r_digest P priv_key message prehash) \<noteq> SX_OK
        then fst (sign_r_digest P priv_key message prehash)
      else if fst (sign_point_R P priv_key message prehash) \<noteq> SX_OK
        then fst (sign_point_R P priv_key message prehash)
      else if fst (sign_pubkey_A P priv_key) \<noteq> SX_OK then fst (sign_pubkey_A P priv_key)
      else if fst (sign_k_digest P priv_key message prehash) \<noteq> SX_OK
        then fst (sign_k_digest P priv_key message prehash)
      else fst (sign_scalar_S P priv_key message prehash))"

subsection \<open>What is asked of the primitives\<close>

text \<open>
  A primitive that reports \<^verbatim>\<open>SX_OK\<close> has filled its output buffer: the digest size for
  a hash, 57 bytes for a point or a scalar. \<^verbatim>\<open>decode_scalar_448\<close> returns no status and
  rewrites its 57 bytes.
\<close>

definition hash_wf :: "prims \<Rightarrow> bool" where
  "hash_wf P \<longleftrightarrow>
     (\<forall>x a. fst (cracen_hash_input P x a) = SX_OK \<longrightarrow>
        length (snd (cracen_hash_input P x a)) = sx_hash_get_digestsz a) \<and>
     (\<forall>xs a. fst (cracen_hash_all_inputs P xs a) = SX_OK \<longrightarrow>
        length (snd (cracen_hash_all_inputs P xs a)) = sx_hash_get_digestsz a) \<and>
     (\<forall>x. length x = SX_ED448_SZ \<longrightarrow> length (decode_scalar_448 P x) = SX_ED448_SZ)"

definition prims_wf :: "prims \<Rightarrow> bool" where
  "prims_wf P \<longleftrightarrow>
     hash_wf P \<and>
     (\<forall>d. fst (sx_ed448_ptmult P d) = SX_OK \<longrightarrow>
        length (snd (sx_ed448_ptmult P d)) = SX_ED448_PT_SZ) \<and>
     (\<forall>k r s. fst (sx_ed448_sign P k r s) = SX_OK \<longrightarrow>
        length (snd (sx_ed448_sign P k r s)) = SX_ED448_SZ)"

text \<open>The stack arrays have the sizes of their declarations.\<close>

definition frame_ok :: "sign_frame \<Rightarrow> bool" where
  "frame_ok fr \<longleftrightarrow>
     length (sf_workmem fr) = 5 * SX_ED448_SZ \<and> length (sf_pnt_r fr) = SX_ED448_DGST_SZ"

text \<open>The hash engine reports no failure, whatever it is given.\<close>

definition hash_succeeds :: "prims \<Rightarrow> bool" where
  "hash_succeeds P \<longleftrightarrow>
     (\<forall>x a. fst (cracen_hash_input P x a) = SX_OK) \<and>
     (\<forall>xs a. fst (cracen_hash_all_inputs P xs a) = SX_OK)"

text \<open>No primitive reports a failure.\<close>

definition prims_succeed :: "prims \<Rightarrow> bool" where
  "prims_succeed P \<longleftrightarrow>
     hash_succeeds P \<and>
     (\<forall>d. fst (sx_ed448_ptmult P d) = SX_OK) \<and>
     (\<forall>k r s. fst (sx_ed448_sign P k r s) = SX_OK) \<and>
     (\<forall>k a s r. sx_ed448_verify P k a s r = SX_OK)"

subsection \<open>The curve primitives, from their contracts\<close>

text \<open>
  Modelled from the spec: the curve library behind \<^verbatim>\<open>sx_ed448_ptmult\<close>,
  \<^verbatim>\<open>sx_ed448_sign\<close> and \<^verbatim>\<open>sx_ed448_verify\<close> (silexpk/ed448.h and its implementation are
  not among the sources). The spec treats the group arithmetic as a collaborator with a
  contract, so the group is a parameter: its addition, neutral element, base point B,
  the order L of B, the on-curve test and the 57-byte point encoding. \<open>cv_invalid\<close> is
  the status that verification reports for a signature that does not check; its number
  is in cracen/statuscodes.h, outside the sources.
\<close>

record 'p curve =
  cv_add :: "'p \<Rightarrow> 'p \<Rightarrow> 'p"
  cv_zero :: "'p"
  cv_base :: "'p"
  cv_order :: nat
  cv_on_curve :: "'p \<Rightarrow> bool"
  cv_encode :: "'p \<Rightarrow> bytes"
  cv_decode :: "bytes \<Rightarrow> 'p option"
  cv_invalid :: int

text \<open>Modelled from the spec: scalar multiplication [n]P, by doubling and adding.\<close>

fun cv_mult :: "'p curve \<Rightarrow> nat \<Rightarrow> 'p \<Rightarrow> 'p" where
  "cv_mult C n p =
     (if n = 0 then cv_zero C
      else (let h = cv_mult C (n div 2) p; d = cv_add C h h
            in if even n then d else cv_add C p d))"

declare cv_mult.simps [simp del]

text \<open>Modelled from the spec: the little-endian encoding of scalars and digests.\<close>

fun le_nat :: "bytes \<Rightarrow> nat" where
  "le_nat [] = 0"
| "le_nat (b # bs) = unat b + 256 * le_nat bs"

fun nat_le :: "nat \<Rightarrow> nat \<Rightarrow> bytes" where
  "nat_le 0 x = []"
| "nat_le (Suc n) x = of_nat (x mod 256) # nat_le n (x div 256)"

text \<open>
  Modelled from the spec: \<open>curve_scalar_mult_base\<close> multiplies B by the wide scalar,
  reduced mod L; \<open>scalar_field_combine\<close> computes (r + k * s) mod L and encodes it in
  57 bytes; \<open>curve_verify_combined\<close> is valid iff both points decode and
  [S]B = R + [k]A.
\<close>

definition curve_ptmult :: "'p curve \<Rightarrow> bytes \<Rightarrow> int \<times> bytes" where
  "curve_ptmult C d = (SX_OK, cv_encode C (cv_mult C (le_nat d mod cv_order C) (cv_base C)))"

definition curve_sign :: "'p curve \<Rightarrow> bytes \<Rightarrow> bytes \<Rightarrow> bytes \<Rightarrow> int \<times> bytes" where
  "curve_sign C k r s =
     (SX_OK, nat_le 57 ((le_nat r + le_nat k * le_nat s) mod cv_order C))"

definition curve_verify :: "'p curve \<Rightarrow> bytes \<Rightarrow> bytes \<Rightarrow> bytes \<Rightarrow> bytes \<Rightarrow> int" where
  "curve_verify C k a sig_s sig_r =
     (case cv_decode C sig_r of
        None \<Rightarrow> cv_invalid C
      | Some R \<Rightarrow>
         (case cv_decode C a of
            None \<Rightarrow> cv_invalid C
          | Some A \<Rightarrow>
              if cv_mult C (le_nat sig_s) (cv_base C) = cv_add C R (cv_mult C (le_nat k) A)
              then SX_OK else cv_invalid C))"

text \<open>
  Modelled from the spec: the primitives of \<open>P\<close> with the three curve operations taken
  from the curve.
\<close>

definition curve_prims :: "'p curve \<Rightarrow> prims \<Rightarrow> prims" where
  "curve_prims C P =
     P\<lparr>sx_ed448_ptmult := curve_ptmult C, sx_ed448_sign := curve_sign C,
       sx_ed448_verify := curve_verify C\<rparr>"

text \<open>
  Modelled from the spec: what the contract assumes of the group. The points on the
  curve form a commutative monoid under the addition, B is on the curve and [L]B is the
  neutral element, a scalar below L fits 57 bytes, and a point on the curve survives
  encoding to 57 bytes and decoding.
\<close>

definition curve_ok :: "'p curve \<Rightarrow> bool" where
  "curve_ok C \<longleftrightarrow>
     0 < cv_order C \<and> cv_order C \<le> 256 ^ 57 \<and>
     cv_on_curve C (cv_zero C) \<and> cv_on_curve C (cv_base C) \<and>
     (\<forall>p q. cv_on_curve C p \<longrightarrow> cv_on_curve C q \<longrightarrow> cv_on_curve C (cv_add C p q)) \<and>
     (\<forall>p q r. cv_on_curve C p \<longrightarrow> cv_on_curve C q \<longrightarrow> cv_on_curve C r \<longrightarrow>
        cv_add C (cv_add C p q) r = cv_add C p (cv_add C q r)) \<and>
     (\<forall>p q. cv_on_curve C p \<longrightarrow> cv_on_curve C q \<longrightarrow> cv_add C p q = cv_add C q p) \<and>
     (\<forall>p. cv_on_curve C p \<longrightarrow> cv_add C (cv_zero C) p = p) \<and>
     cv_mult C (cv_order C) (cv_base C) = cv_zero C \<and>
     (\<forall>p. cv_on_curve C p \<longrightarrow>
        cv_decode C (cv_encode C p) = Some p \<and> length (cv_encode C p) = 57)"

subsection \<open>Concrete primitives for evaluation\<close>

text \<open>
  A stand-in hash that returns the first 114 bytes of its zero-padded input, so that
  the bytes it was given can be read off its output, and stand-in curve operations.
  None of them fails.
\<close>

definition echo_prims :: prims where
  "echo_prims =
     \<lparr>cracen_hash_input = (\<lambda>x a. (SX_OK, take 114 (x @ replicate 114 0))),
      cracen_hash_all_inputs = (\<lambda>xs a. (SX_OK, take 114 (concat xs @ replicate 114 0))),
      sx_ed448_ptmult = (\<lambda>d. (SX_OK, take 57 (d @ replicate 57 0))),
      sx_ed448_sign = (\<lambda>k r s. (SX_OK, take 57 (s @ replicate 57 0))),
      sx_ed448_verify = (\<lambda>k a s r. SX_OK),
      decode_scalar_448 = (\<lambda>x. x)\<rparr>"

text \<open>The same, with a hash engine that fails on every list of inputs and writes nothing.\<close>

definition hash_all_fails :: prims where
  "hash_all_fails = echo_prims\<lparr>cracen_hash_all_inputs := (\<lambda>xs a. (1, []))\<rparr>"

text \<open>The same, with a point multiplication that fails and writes nothing.\<close>

definition ptmult_fails :: prims where
  "ptmult_fails = echo_prims\<lparr>sx_ed448_ptmult := (\<lambda>d. (1, []))\<rparr>"

definition zero_frame :: sign_frame where
  "zero_frame = \<lparr>sf_workmem = replicate 285 0, sf_pnt_r = replicate 114 0\<rparr>"

text \<open>The integers mod 7 under addition, with base point 1, as a small curve group.\<close>

definition toy_curve :: "nat curve" where
  "toy_curve =
     \<lparr>cv_add = (\<lambda>p q. (p + q) mod 7), cv_zero = 0, cv_base = 1, cv_order = 7,
      cv_on_curve = (\<lambda>p. p < 7), cv_encode = nat_le 57,
      cv_decode = (\<lambda>bs. if length bs = 57 \<and> le_nat bs < 7 then Some (le_nat bs) else None),
      cv_invalid = 1\<rparr>"

text \<open>A work buffer of 285 bytes whose bytes 57..113 are all 2.\<close>

definition cx_mem :: bytes where
  "cx_mem = replicate 57 1 @ replicate 57 2 @ replicate 171 0"

section \<open>Properties\<close>

subsection \<open>Reading and writing buffers\<close>

lemma length_rd: "length (rd mem p n) = min n (length mem - p)"
  by (simp add: rd_def)

lemma length_wr: "p + length d \<le> length mem \<Longrightarrow> length (wr mem p d) = length mem"
  by (simp add: wr_def)

lemma rd_wr_same: "p \<le> length mem \<Longrightarrow> n = length d \<Longrightarrow> rd (wr mem p d) p n = d"
  by (simp add: rd_def wr_def)

lemma rd_wr_lo:
  assumes "q + n \<le> p" "p \<le> length mem"
  shows "rd (wr mem p d) q n = rd mem q n"
proof -
  have "take n (drop q (take p mem)) = take n (drop q mem)"
    using assms by (simp add: drop_take min_absorb1)
  with assms show ?thesis
    by (simp add: rd_def wr_def)
qed

lemma rd_wr_hi: "p + length d \<le> q \<Longrightarrow> p \<le> length mem \<Longrightarrow> rd (wr mem p d) q n = rd mem q n"
  by (simp add: rd_def wr_def)

lemma rd_wr_in:
  assumes "p \<le> q" "q + n \<le> p + length d" "p \<le> length mem"
  shows "rd (wr mem p d) q n = rd d (q - p) n"
  using assms by (simp add: rd_def wr_def)

lemma rd_split: "rd mem p (a + b) = rd mem p a @ rd mem (p + a) b"
  by (simp add: rd_def take_add add.commute)

lemma rd_0_114: "rd mem 0 114 = rd mem 0 57 @ rd mem 57 57"
  using rd_split [of mem 0 57 57] by simp

lemma rd_join: "length k = 114 \<Longrightarrow> rd k 0 57 @ rd k 57 57 = k"
  using rd_split [of k 0 57 57] by (simp add: rd_def)

lemma rd_all: "length d \<le> n \<Longrightarrow> rd d 0 n = d"
  by (simp add: rd_def)

lemma rd_append_hi: "length a = p \<Longrightarrow> rd (a @ b) p n = rd b 0 n"
  by (simp add: rd_def)

lemma rd_append_lo: "n \<le> length a \<Longrightarrow> rd (a @ b) 0 n = rd a 0 n"
  by (simp add: rd_def)

lemma wr_0: "wr mem 0 d = d @ drop (length d) mem"
  by (simp add: wr_def)

lemma wr_fill: "length mem = n \<Longrightarrow> wr mem 0 (replicate n c) = replicate n c"
  by (simp add: wr_def)

lemma wr_wr_pnt:
  "length pr = 114 \<Longrightarrow> length R = 57 \<Longrightarrow> length S = 57 \<Longrightarrow> wr (wr pr 0 R) 57 S = R @ S"
  by (simp add: wr_def)

lemma replicate_append_neq_Cons: "0 < n \<Longrightarrow> x \<noteq> z \<Longrightarrow> replicate n x @ ys \<noteq> z # zs"
  by (cases n) auto

lemma digestsz_114: "sx_hash_get_digestsz a = 114"
  by (cases a) simp

lemmas mem_simps = length_rd length_wr rd_wr_same rd_wr_lo rd_wr_hi rd_wr_in rd_0_114 rd_all
  wr_fill wr_wr_pnt rd_append_hi rd_append_lo rd_join

lemmas sz = SX_ED448_SZ_def SX_ED448_PT_SZ_def SX_ED448_DGST_SZ_def
  AREA2_MEM_OFFSET_def AREA4_MEM_OFFSET_def

lemmas vals = sign_key_digest_def sign_r_digest_def sign_point_R_def sign_pubkey_A_def
  sign_k_digest_def sign_scalar_S_def sign_secret_scalar_def

subsection \<open>Running the sign pipeline on named results\<close>

text \<open>
  When every primitive succeeds and fills its output, the call returns the two halves
  that the primitives produced and a zeroed work buffer.
\<close>

lemma sign_internal_exec:
  assumes "cracen_hash_input P (rd sk 0 57) sxhashalg_shake256_114 = (SX_OK, kd)"
    and "length kd = 114"
    and "cracen_hash_all_inputs P (if ph then [dom4, rd kd 57 57, m] else [rd kd 57 57, m])
           sxhashalg_shake256_114 = (SX_OK, r)"
    and "length r = 114"
    and "sx_ed448_ptmult P r = (SX_OK, R)"
    and "length R = 57"
    and "decode_scalar_448 P (rd kd 0 57) = s"
    and "length s = 57"
    and "sx_ed448_ptmult P (s @ replicate 57 0) = (SX_OK, A)"
    and "length A = 57"
    and "cracen_hash_all_inputs P (if ph then [dom4, R, A, m] else [R, A, m])
           sxhashalg_shake256_114 = (SX_OK, k)"
    and "length k = 114"
    and "sx_ed448_sign P k r s = (SX_OK, S)"
    and "length S = 57"
    and "length (sf_workmem fr) = 285"
    and "length (sf_pnt_r fr) = 114"
  shows "ed448_sign_internal P fr sk sig m ph =
     \<lparr>sr_status = SX_OK, sr_signature = wr sig 0 (R @ S),
      sr_workmem = replicate 285 0, sr_pnt_r = R @ S\<rparr>"
  using assms
  by (cases ph)
    (simp_all add: ed448_sign_internal_def ed448_calculate_r_def ed448_calculate_k_def
      Let_def sz safe_memset_def safe_memzero_def mem_simps)

text \<open>The returned status is that of the first primitive that fails.\<close>

lemma sign_internal_status_exec:
  assumes "cracen_hash_input P (rd sk 0 57) sxhashalg_shake256_114 = (st1, kd)"
    and "st1 = SX_OK \<Longrightarrow> length kd = 114"
    and "cracen_hash_all_inputs P (if ph then [dom4, rd kd 57 57, m] else [rd kd 57 57, m])
           sxhashalg_shake256_114 = (st2, r)"
    and "st2 = SX_OK \<Longrightarrow> length r = 114"
    and "sx_ed448_ptmult P r = (st3, R)"
    and "st3 = SX_OK \<Longrightarrow> length R = 57"
    and "decode_scalar_448 P (rd kd 0 57) = s"
    and "st1 = SX_OK \<Longrightarrow> length s = 57"
    and "sx_ed448_ptmult P (s @ replicate 57 0) = (st4, A)"
    and "st4 = SX_OK \<Longrightarrow> length A = 57"
    and "cracen_hash_all_inputs P (if ph then [dom4, R, A, m] else [R, A, m])
           sxhashalg_shake256_114 = (st5, k)"
    and "st5 = SX_OK \<Longrightarrow> length k = 114"
    and "sx_ed448_sign P k r s = (st6, S)"
    and "length (sf_workmem fr) = 285"
    and "length (sf_pnt_r fr) = 114"
  shows "sr_status (ed448_sign_internal P fr sk sig m ph) =
     (if st1 \<noteq> SX_OK then st1 else if st2 \<noteq> SX_OK then st2 else if st3 \<noteq> SX_OK then st3
      else if st4 \<noteq> SX_OK then st4 else if st5 \<noteq> SX_OK then st5 else st6)"
  using assms
  by (cases ph)
    (simp_all add: ed448_sign_internal_def ed448_calculate_r_def ed448_calculate_k_def
      Let_def sz safe_memset_def safe_memzero_def mem_simps)

lemma prims_wf_lengths:
  assumes "prims_wf P"
  shows "\<And>x. fst (cracen_hash_input P x sxhashalg_shake256_114) = SX_OK \<Longrightarrow>
            length (snd (cracen_hash_input P x sxhashalg_shake256_114)) = 114"
    and "\<And>xs. fst (cracen_hash_all_inputs P xs sxhashalg_shake256_114) = SX_OK \<Longrightarrow>
            length (snd (cracen_hash_all_inputs P xs sxhashalg_shake256_114)) = 114"
    and "\<And>d. fst (sx_ed448_ptmult P d) = SX_OK \<Longrightarrow> length (snd (sx_ed448_ptmult P d)) = 57"
    and "\<And>k r s. fst (sx_ed448_sign P k r s) = SX_OK \<Longrightarrow>
            length (snd (sx_ed448_sign P k r s)) = 57"
    and "\<And>x. length x = 57 \<Longrightarrow> length (decode_scalar_448 P x) = 57"
  using assms by (simp_all add: prims_wf_def hash_wf_def sz)

lemma frame_ok_lengths:
  assumes "frame_ok fr"
  shows "length (sf_workmem fr) = 285" and "length (sf_pnt_r fr) = 114"
  using assms by (simp_all add: frame_ok_def sz)

lemma sign_status_OK:
  "sign_status P sk m ph = SX_OK \<longleftrightarrow>
     fst (sign_key_digest P sk) = SX_OK \<and> fst (sign_r_digest P sk m ph) = SX_OK \<and>
     fst (sign_point_R P sk m ph) = SX_OK \<and> fst (sign_pubkey_A P sk) = SX_OK \<and>
     fst (sign_k_digest P sk m ph) = SX_OK \<and> fst (sign_scalar_S P sk m ph) = SX_OK"
  by (auto simp: sign_status_def)

lemma sign_internal_status:
  assumes wf: "prims_wf P" and fr: "frame_ok fr"
  shows "sr_status (ed448_sign_internal P fr sk sig m ph) = sign_status P sk m ph"
proof -
  note len = prims_wf_lengths [OF wf]
  note fl = frame_ok_lengths [OF fr]
  have s: "fst (sign_key_digest P sk) = SX_OK \<Longrightarrow> length (sign_secret_scalar P sk) = 57"
    by (simp add: sign_secret_scalar_def sign_key_digest_def len length_rd)
  show ?thesis
    unfolding sign_status_def
    by (rule sign_internal_status_exec
        [where kd = "snd (sign_key_digest P sk)" and r = "snd (sign_r_digest P sk m ph)"
           and R = "snd (sign_point_R P sk m ph)" and s = "sign_secret_scalar P sk"
           and A = "snd (sign_pubkey_A P sk)" and k = "snd (sign_k_digest P sk m ph)"
           and S = "snd (sign_scalar_S P sk m ph)"])
      (simp_all add: vals len fl length_rd s [unfolded vals])
qed

lemma sign_internal_ok:
  assumes wf: "prims_wf P" and fr: "frame_ok fr"
    and ok: "sign_status P sk m ph = SX_OK"
  shows "ed448_sign_internal P fr sk sig m ph =
     \<lparr>sr_status = SX_OK,
      sr_signature = wr sig 0 (snd (sign_point_R P sk m ph) @ snd (sign_scalar_S P sk m ph)),
      sr_workmem = replicate 285 0,
      sr_pnt_r = snd (sign_point_R P sk m ph) @ snd (sign_scalar_S P sk m ph)\<rparr>"
proof -
  from ok have st:
    "fst (sign_key_digest P sk) = SX_OK" "fst (sign_r_digest P sk m ph) = SX_OK"
    "fst (sign_point_R P sk m ph) = SX_OK" "fst (sign_pubkey_A P sk) = SX_OK"
    "fst (sign_k_digest P sk m ph) = SX_OK" "fst (sign_scalar_S P sk m ph) = SX_OK"
    by (simp_all add: sign_status_OK)
  note len = prims_wf_lengths [OF wf]
  note fl = frame_ok_lengths [OF fr]
  show ?thesis
    by (rule sign_internal_exec
        [where kd = "snd (sign_key_digest P sk)" and r = "snd (sign_r_digest P sk m ph)"
           and s = "sign_secret_scalar P sk"
           and A = "snd (sign_pubkey_A P sk)" and k = "snd (sign_k_digest P sk m ph)"])
      (insert st, simp_all add: vals len fl length_rd prod_eq_iff)
qed

lemma sign_internal_fail_frame:
  "sr_status (ed448_sign_internal P fr sk sig m ph) \<noteq> SX_OK \<Longrightarrow>
   sr_signature (ed448_sign_internal P fr sk sig m ph) = sig"
  by (simp add: ed448_sign_internal_def Let_def split_beta split: if_splits)

lemma create_pubkey_exec:
  assumes "cracen_hash_input P (rd sk 0 57) sxhashalg_shake256_114 = (SX_OK, kd)"
    and "length kd = 114"
    and "decode_scalar_448 P (rd kd 0 57) = s"
    and "length s = 57"
    and "sx_ed448_ptmult P (s @ replicate 57 0) = (SX_OK, A)"
    and "length A = 57"
    and "length d = 114"
  shows "cracen_ed448_create_pubkey P d sk pub =
     \<lparr>pk_status = SX_OK, pk_pub_key = wr pub 0 A, pk_digest = replicate 114 0\<rparr>"
  using assms
  by (simp add: cracen_ed448_create_pubkey_def Let_def sz safe_memset_def safe_memzero_def
      mem_simps)

lemma verify_internal_exec:
  assumes "cracen_hash_all_inputs P
             (if ph then [dom4, rd sig 0 57, rd pub 0 57, m] else [rd sig 0 57, rd pub 0 57, m])
             sxhashalg_shake256_114 = (SX_OK, k)"
    and "length k = 114"
  shows "ed448_verify_internal P d pub m sig ph =
     \<lparr>vr_status = sx_ed448_verify P k (rd pub 0 57) (rd sig 57 57) (rd sig 0 57),
      vr_digest = wr d 0 k\<rparr>"
  using assms
  by (cases ph) (simp_all add: ed448_verify_internal_def Let_def sz mem_simps)

subsection \<open>The concrete primitives meet what is asked\<close>

lemma echo_hash_wf: "hash_wf echo_prims"
  by (auto simp: hash_wf_def echo_prims_def sz digestsz_114)

lemma echo_prims_wf: "prims_wf echo_prims"
  using echo_hash_wf by (auto simp: prims_wf_def echo_prims_def sz)

lemma echo_prims_succeed: "prims_succeed echo_prims"
  by (simp add: prims_succeed_def hash_succeeds_def echo_prims_def)

lemma ptmult_fails_wf: "prims_wf ptmult_fails"
  using echo_hash_wf
  by (auto simp: prims_wf_def hash_wf_def ptmult_fails_def echo_prims_def sz SX_OK_def)

lemma zero_frame_ok: "frame_ok zero_frame"
  by (simp add: frame_ok_def zero_frame_def sz)

subsection \<open>The hash inputs\<close>

text \<open>
  C2, as amended: the nonce digest r is the hash of dom4, the prefix half of the key
  digest and the message when prehash is true, and of the prefix half and the message,
  without dom4, when prehash is false (pure mode). The prefix half is hashed in every
  mode, and the digest is written 114 bytes after the prefix.
\<close>

theorem calculate_r_inputs:
  "ed448_calculate_r P mem workmem message True =
     (fst (cracen_hash_all_inputs P
             [dom4, rd mem workmem 57, message] sxhashalg_shake256_114),
      wr mem (workmem + 114) (take 114 (snd (cracen_hash_all_inputs P
             [dom4, rd mem workmem 57, message] sxhashalg_shake256_114))))
   \<and> ed448_calculate_r P mem workmem message False =
     (fst (cracen_hash_all_inputs P
             [rd mem workmem 57, message] sxhashalg_shake256_114),
      wr mem (workmem + 114) (take 114 (snd (cracen_hash_all_inputs P
             [rd mem workmem 57, message] sxhashalg_shake256_114))))"
  by (simp add: ed448_calculate_r_def sz Let_def split: prod.splits)

text \<open>
  The claim as the spec words it fails: in pure mode the code does not hash
  dom4, prefix, message, and in prehash mode it does not hash dom4, message.
\<close>

theorem calculate_r_inputs_counterexample:
  "ed448_calculate_r echo_prims cx_mem 57 [1] False \<noteq>
     (fst (cracen_hash_all_inputs echo_prims [dom4, rd cx_mem 57 57, [1]]
             sxhashalg_shake256_114),
      wr cx_mem (57 + 114) (take 114 (snd (cracen_hash_all_inputs echo_prims
             [dom4, rd cx_mem 57 57, [1]] sxhashalg_shake256_114))))
   \<and> ed448_calculate_r echo_prims cx_mem 57 [1] True \<noteq>
     (fst (cracen_hash_all_inputs echo_prims [dom4, [1]] sxhashalg_shake256_114),
      wr cx_mem (57 + 114) (take 114 (snd (cracen_hash_all_inputs echo_prims
             [dom4, [1]] sxhashalg_shake256_114))))"
  by (simp add: ed448_calculate_r_def sz Let_def echo_prims_def cx_mem_def dom4_def
      rd_def wr_def replicate_append_neq_Cons)

text \<open>
  C3: the challenge digest of signing is SHAKE256 with 114 bytes of output over
  dom4, R, A and the message when prehash is true, and over R, A and the message,
  without dom4, when prehash is false.
\<close>

theorem calculate_k_inputs:
  "ed448_calculate_k P mem workmem point_r message True =
     (fst (cracen_hash_all_inputs P
             [dom4, rd point_r 0 57, rd mem workmem 57, message] sxhashalg_shake256_114),
      wr mem workmem (take 114 (snd (cracen_hash_all_inputs P
             [dom4, rd point_r 0 57, rd mem workmem 57, message] sxhashalg_shake256_114))))
   \<and> ed448_calculate_k P mem workmem point_r message False =
     (fst (cracen_hash_all_inputs P
             [rd point_r 0 57, rd mem workmem 57, message] sxhashalg_shake256_114),
      wr mem workmem (take 114 (snd (cracen_hash_all_inputs P
             [rd point_r 0 57, rd mem workmem 57, message] sxhashalg_shake256_114))))"
  by (simp add: ed448_calculate_k_def sz Let_def split: prod.splits)

text \<open>
  C4: verification hashes dom4, the R half of the signature, the public key and the
  message when prehash is true, and drops dom4 when it is false, as signing does. So
  when the sign-side buffers hold the same R and A and the hash succeeds, the 114-byte
  digest that verification leaves in its \<^verbatim>\<open>digest\<close> array is the one that
  \<^verbatim>\<open>ed448_calculate_k\<close> writes at \<open>workmem\<close>, and the two hash calls report the same status.
\<close>

theorem verify_digest_is_sign_digest:
  assumes "hash_wf P"
    and "rd point_r 0 57 = rd signature 0 57"
    and "rd mem workmem 57 = rd pub_key 0 57"
    and "workmem \<le> length mem"
    and "fst (ed448_calculate_k P mem workmem point_r message prehash) = SX_OK"
  shows "ed448_verify_internal P digest pub_key message signature prehash =
           \<lparr>vr_status = sx_ed448_verify P
              (snd (cracen_hash_all_inputs P
                 (drop (if prehash then 0 else 1)
                    [dom4, rd signature 0 57, rd pub_key 0 57, message])
                 sxhashalg_shake256_114))
              (rd pub_key 0 57) (rd signature 57 57) (rd signature 0 57),
            vr_digest = wr digest 0 (snd (cracen_hash_all_inputs P
                 (drop (if prehash then 0 else 1)
                    [dom4, rd signature 0 57, rd pub_key 0 57, message])
                 sxhashalg_shake256_114))\<rparr>
     \<and> rd (vr_digest (ed448_verify_internal P digest pub_key message signature prehash)) 0 114 =
       rd (snd (ed448_calculate_k P mem workmem point_r message prehash)) workmem 114"
proof -
  let ?X = "cracen_hash_all_inputs P
              (if prehash then [dom4, rd signature 0 57, rd pub_key 0 57, message]
               else [rd signature 0 57, rd pub_key 0 57, message]) sxhashalg_shake256_114"
  have k: "ed448_calculate_k P mem workmem point_r message prehash =
             (fst ?X, wr mem workmem (take 114 (snd ?X)))"
    using assms(2,3)
    by (cases prehash) (simp_all add: ed448_calculate_k_def sz Let_def split: prod.splits)
  with assms(5) have ok: "fst ?X = SX_OK"
    by simp
  with assms(1) have len: "length (snd ?X) = 114"
    by (simp add: hash_wf_def)
  have X: "?X = (SX_OK, snd ?X)"
    using ok by (simp add: prod_eq_iff)
  have v: "ed448_verify_internal P digest pub_key message signature prehash =
     \<lparr>vr_status = sx_ed448_verify P (snd ?X) (rd pub_key 0 57) (rd signature 57 57)
                    (rd signature 0 57),
      vr_digest = wr digest 0 (snd ?X)\<rparr>"
    by (rule verify_internal_exec [OF X len])
  have d: "drop (if prehash then 0 else 1) [dom4, rd signature 0 57, rd pub_key 0 57, message] =
      (if prehash then [dom4, rd signature 0 57, rd pub_key 0 57, message]
       else [rd signature 0 57, rd pub_key 0 57, message])"
    by simp
  show ?thesis
    unfolding d v k using len assms(4)
    by (simp add: rd_wr_same)
qed

theorem verify_digest_is_sign_digest_witness:
  "hash_wf echo_prims
   \<and> rd (replicate 114 5) 0 57 = rd (replicate 114 5) 0 57
   \<and> rd cx_mem 57 57 = rd (replicate 57 2) 0 57
   \<and> 57 \<le> length cx_mem
   \<and> fst (ed448_calculate_k echo_prims cx_mem 57 (replicate 114 5) [1] False) = SX_OK
   \<and> rd (vr_digest (ed448_verify_internal echo_prims (replicate 114 0) (replicate 57 2) [1]
           (replicate 114 5) False)) 0 114 =
     rd (snd (ed448_calculate_k echo_prims cx_mem 57 (replicate 114 5) [1] False)) 57 114"
proof -
  have h1: "hash_wf echo_prims"
    by (rule echo_hash_wf)
  have h2: "rd (replicate 114 5) 0 57 = rd (replicate 114 5) 0 57"
    by simp
  have h3: "rd cx_mem 57 57 = rd (replicate 57 2) 0 57"
    by (simp add: cx_mem_def rd_def)
  have h4: "57 \<le> length cx_mem"
    by (simp add: cx_mem_def)
  have h5: "fst (ed448_calculate_k echo_prims cx_mem 57 (replicate 114 5) [1] False) = SX_OK"
    by (simp add: ed448_calculate_k_def echo_prims_def Let_def)
  from verify_digest_is_sign_digest [OF h1 h2 h3 h4 h5, of "replicate 114 0"] h1 h2 h3 h4 h5
  show ?thesis
    by blast
qed

subsection \<open>Outputs and scratch buffers\<close>

text \<open>
  C1: the claim is that every return of the sign operation and of
  \<^verbatim>\<open>cracen_ed448_create_pubkey\<close> leaves the secret scratch buffers zeroed. The success
  path zeroes them, the early error returns do not: when the hash of the key succeeds
  and the hash for r fails, \<^verbatim>\<open>cracen_ed448_sign\<close> returns the error with the digest of
  the private key still in the first bytes of \<^verbatim>\<open>workmem\<close>; when the point
  multiplication fails, \<^verbatim>\<open>cracen_ed448_create_pubkey\<close> returns the error with the
  decoded secret scalar still in \<^verbatim>\<open>digest\<close>.
\<close>

theorem error_return_leaves_secrets:
  "sr_status (cracen_ed448_sign hash_all_fails zero_frame (replicate 57 17) [] []) = 1
   \<and> rd (sr_workmem (cracen_ed448_sign hash_all_fails zero_frame (replicate 57 17) [] []))
        0 57 = replicate 57 17
   \<and> pk_status (cracen_ed448_create_pubkey ptmult_fails (replicate 114 0) (replicate 57 17) [])
       = 1
   \<and> rd (pk_digest (cracen_ed448_create_pubkey ptmult_fails (replicate 114 0)
            (replicate 57 17) [])) 0 57 = replicate 57 17"
  by (simp add: cracen_ed448_sign_def ed448_sign_internal_def ed448_calculate_r_def
      cracen_ed448_create_pubkey_def hash_all_fails_def ptmult_fails_def echo_prims_def
      zero_frame_def Let_def sz SX_OK_def safe_memset_def rd_def wr_def)

text \<open>
  C7: a sign call or a public-key derivation that returns a status other than
  \<^verbatim>\<open>SX_OK\<close> leaves the caller's signature buffer, or public-key buffer, as it was.
\<close>

theorem failure_writes_no_output:
  "(sr_status (cracen_ed448_sign P fr priv_key signature message) \<noteq> SX_OK \<longrightarrow>
      sr_signature (cracen_ed448_sign P fr priv_key signature message) = signature)
   \<and> (sr_status (cracen_ed448ph_sign P hm fr priv_key signature message is_message) \<noteq> SX_OK \<longrightarrow>
      sr_signature (cracen_ed448ph_sign P hm fr priv_key signature message is_message)
        = signature)
   \<and> (pk_status (cracen_ed448_create_pubkey P digest priv_key pub_key) \<noteq> SX_OK \<longrightarrow>
      pk_pub_key (cracen_ed448_create_pubkey P digest priv_key pub_key) = pub_key)"
proof (intro conjI impI)
  assume "sr_status (cracen_ed448_sign P fr priv_key signature message) \<noteq> SX_OK"
  then show "sr_signature (cracen_ed448_sign P fr priv_key signature message) = signature"
    by (simp add: cracen_ed448_sign_def sign_internal_fail_frame)
next
  assume "sr_status (cracen_ed448ph_sign P hm fr priv_key signature message is_message) \<noteq> SX_OK"
  then show "sr_signature (cracen_ed448ph_sign P hm fr priv_key signature message is_message)
      = signature"
    by (auto simp: cracen_ed448ph_sign_def Let_def split_beta sign_internal_fail_frame
        split: if_splits)
next
  assume "pk_status (cracen_ed448_create_pubkey P digest priv_key pub_key) \<noteq> SX_OK"
  then show "pk_pub_key (cracen_ed448_create_pubkey P digest priv_key pub_key) = pub_key"
    by (simp add: cracen_ed448_create_pubkey_def Let_def split_beta split: if_splits)
qed

theorem failure_writes_no_output_witness:
  "sr_status (cracen_ed448_sign ptmult_fails zero_frame (replicate 57 17) [9, 9] [1]) \<noteq> SX_OK
   \<and> sr_signature (cracen_ed448_sign ptmult_fails zero_frame (replicate 57 17) [9, 9] [1])
       = [9, 9]
   \<and> sr_status (cracen_ed448ph_sign ptmult_fails [] zero_frame (replicate 57 17) [9, 9] [1]
        False) \<noteq> SX_OK
   \<and> sr_signature (cracen_ed448ph_sign ptmult_fails [] zero_frame (replicate 57 17) [9, 9] [1]
        False) = [9, 9]
   \<and> pk_status (cracen_ed448_create_pubkey ptmult_fails (replicate 114 0) (replicate 57 17)
        [9, 9]) \<noteq> SX_OK
   \<and> pk_pub_key (cracen_ed448_create_pubkey ptmult_fails (replicate 114 0) (replicate 57 17)
        [9, 9]) = [9, 9]"
proof -
  have st: "sign_status ptmult_fails (replicate 57 17) [1] ph \<noteq> SX_OK" for ph
    by (simp add: sign_status_def vals ptmult_fails_def echo_prims_def SX_OK_def)
  have h1: "sr_status (cracen_ed448_sign ptmult_fails zero_frame (replicate 57 17) [9, 9] [1])
      \<noteq> SX_OK"
    unfolding cracen_ed448_sign_def sign_internal_status [OF ptmult_fails_wf zero_frame_ok]
    by (rule st)
  have "cracen_ed448ph_sign ptmult_fails [] zero_frame (replicate 57 17) [9, 9] [1] False =
      ed448_sign_internal ptmult_fails zero_frame (replicate 57 17) [9, 9] [1] True"
    by (simp add: cracen_ed448ph_sign_def)
  then have h2: "sr_status (cracen_ed448ph_sign ptmult_fails [] zero_frame (replicate 57 17)
      [9, 9] [1] False) \<noteq> SX_OK"
    using st by (simp add: sign_internal_status [OF ptmult_fails_wf zero_frame_ok])
  have h3: "pk_status (cracen_ed448_create_pubkey ptmult_fails (replicate 114 0)
      (replicate 57 17) [9, 9]) \<noteq> SX_OK"
    by (simp add: cracen_ed448_create_pubkey_def ptmult_fails_def echo_prims_def Let_def
        SX_OK_def)
  from failure_writes_no_output [of ptmult_fails zero_frame "replicate 57 17" "[9, 9]" "[1]"
      "[]" False "replicate 114 0" "[9, 9]"] h1 h2 h3
  show ?thesis
    by blast
qed

text \<open>
  C9: pure-mode signing is a function of the key and the message alone. Two calls
  with the same key and message return the same status and, when they succeed, the same
  114 signature bytes, whatever the stack arrays and the signature buffers held before.
\<close>

theorem pure_sign_deterministic:
  assumes "prims_wf P" and "frame_ok fr1" and "frame_ok fr2"
  shows "sr_status (cracen_ed448_sign P fr1 priv_key sig1 message) =
           sr_status (cracen_ed448_sign P fr2 priv_key sig2 message)
     \<and> (sr_status (cracen_ed448_sign P fr1 priv_key sig1 message) = SX_OK \<longrightarrow>
          rd (sr_signature (cracen_ed448_sign P fr1 priv_key sig1 message)) 0 114 =
          rd (sr_signature (cracen_ed448_sign P fr2 priv_key sig2 message)) 0 114
        \<and> length (rd (sr_signature (cracen_ed448_sign P fr1 priv_key sig1 message)) 0 114)
            = 114)"
proof -
  have st: "sr_status (cracen_ed448_sign P fr priv_key sig message) =
      sign_status P priv_key message False" if "frame_ok fr" for fr sig
    using that assms(1) by (simp add: cracen_ed448_sign_def sign_internal_status)
  have sg: "rd (sr_signature (cracen_ed448_sign P fr priv_key sig message)) 0 114 =
      snd (sign_point_R P priv_key message False) @ snd (sign_scalar_S P priv_key message False)
    \<and> length (snd (sign_point_R P priv_key message False) @
         snd (sign_scalar_S P priv_key message False)) = 114"
    if "frame_ok fr" and ok: "sign_status P priv_key message False = SX_OK" for fr sig
  proof -
    from ok have "fst (sign_point_R P priv_key message False) = SX_OK"
      and "fst (sign_scalar_S P priv_key message False) = SX_OK"
      by (simp_all add: sign_status_OK)
    then have "length (snd (sign_point_R P priv_key message False)) = 57"
      and "length (snd (sign_scalar_S P priv_key message False)) = 57"
      using prims_wf_lengths [OF assms(1)]
      by (simp_all add: sign_point_R_def sign_scalar_S_def)
    then show ?thesis
      using sign_internal_ok [OF assms(1) that(1) ok, of sig]
      by (simp add: cracen_ed448_sign_def wr_0 rd_def)
  qed
  show ?thesis
    using st [OF assms(2), of sig1] st [OF assms(3), of sig2]
      sg [OF assms(2), of sig1] sg [OF assms(3), of sig2]
    by simp
qed

theorem pure_sign_deterministic_witness:
  "prims_wf echo_prims \<and> frame_ok zero_frame
   \<and> frame_ok \<lparr>sf_workmem = replicate 285 7, sf_pnt_r = replicate 114 8\<rparr>
   \<and> sr_status (cracen_ed448_sign echo_prims zero_frame (replicate 57 17) [] [1]) = SX_OK
   \<and> rd (sr_signature (cracen_ed448_sign echo_prims zero_frame (replicate 57 17) [] [1])) 0 114 =
     rd (sr_signature (cracen_ed448_sign echo_prims
           \<lparr>sf_workmem = replicate 285 7, sf_pnt_r = replicate 114 8\<rparr>
           (replicate 57 17) (replicate 200 3) [1])) 0 114"
proof -
  have h2: "frame_ok \<lparr>sf_workmem = replicate 285 7, sf_pnt_r = replicate 114 8\<rparr>"
    by (simp add: frame_ok_def sz)
  have h3: "sr_status (cracen_ed448_sign echo_prims zero_frame (replicate 57 17) [] [1]) = SX_OK"
    unfolding cracen_ed448_sign_def sign_internal_status [OF echo_prims_wf zero_frame_ok]
    by (simp add: sign_status_def vals echo_prims_def)
  from pure_sign_deterministic [OF echo_prims_wf zero_frame_ok h2, of "replicate 57 17" "[]"
      "[1]" "replicate 200 3"] echo_prims_wf zero_frame_ok h2 h3
  show ?thesis
    by blast
qed


subsection \<open>Prehashed messages\<close>

text \<open>
  C6: when the hash of the raw message succeeds with the 114-byte digest d, signing the
  raw message in prehash mode (is_message true) is the same call as signing d as an
  already hashed message (is_message false): same status, same signature buffer, same
  stack arrays.
\<close>

theorem prehash_raw_equals_digested:
  assumes "cracen_hash_input P message sxhashalg_shake256_114 = (SX_OK, d)"
    and "length d = 114"
  shows "cracen_ed448ph_sign P hm1 fr priv_key signature message True =
         cracen_ed448ph_sign P hm2 fr priv_key signature d False"
  using assms by (simp add: cracen_ed448ph_sign_def sz rd_wr_same)

theorem prehash_raw_equals_digested_witness:
  "cracen_hash_input echo_prims [1, 2, 3] sxhashalg_shake256_114 =
     (SX_OK, [1, 2, 3] @ replicate 111 0)
   \<and> length ([1, 2, 3] @ replicate 111 (0 :: byte)) = 114
   \<and> cracen_ed448ph_sign echo_prims (replicate 114 9) zero_frame (replicate 57 17) [] [1, 2, 3]
       True =
     cracen_ed448ph_sign echo_prims [] zero_frame (replicate 57 17) []
       ([1, 2, 3] @ replicate 111 0) False"
proof -
  have h1: "cracen_hash_input echo_prims [1, 2, 3] sxhashalg_shake256_114 =
      (SX_OK, [1, 2, 3] @ replicate 111 0)"
    by (simp add: echo_prims_def)
  have h2: "length ([1, 2, 3] @ replicate 111 (0 :: byte)) = 114"
    by simp
  from prehash_raw_equals_digested [OF h1 h2, where ?hm1.0 = "replicate 114 9"
      and fr = zero_frame and priv_key = "replicate 57 17" and signature = "[]"
      and ?hm2.0 = "[]"] h1 h2
  show ?thesis
    by blast
qed

text \<open>
  C10: with is_message false, \<^verbatim>\<open>cracen_ed448ph_sign\<close> and \<^verbatim>\<open>cracen_ed448ph_verify\<close>
  pass the caller's buffer on as the prehashed message whatever its length, and no
  status comes from the length: when no primitive fails, both calls return
  \<^verbatim>\<open>SX_OK\<close> for a message of any length.
\<close>

theorem digested_length_not_checked:
  "cracen_ed448ph_sign P hm fr priv_key signature message False =
     ed448_sign_internal P fr priv_key signature message True
   \<and> cracen_ed448ph_verify P md digest pub_key message sig False =
     ed448_verify_internal P digest pub_key message sig True
   \<and> (prims_succeed P \<longrightarrow>
        sr_status (cracen_ed448ph_sign P hm fr priv_key signature message False) = SX_OK
        \<and> vr_status (cracen_ed448ph_verify P md digest pub_key message sig False) = SX_OK)"
  by (simp add: cracen_ed448ph_sign_def cracen_ed448ph_verify_def prims_succeed_def
      hash_succeeds_def ed448_sign_internal_def ed448_verify_internal_def
      ed448_calculate_r_def ed448_calculate_k_def Let_def split_beta)

theorem digested_length_not_checked_witness:
  "prims_succeed echo_prims
   \<and> length [1 :: byte, 2, 3] \<noteq> 114
   \<and> sr_status (cracen_ed448ph_sign echo_prims [] zero_frame (replicate 57 17) [] [1, 2, 3]
        False) = SX_OK
   \<and> vr_status (cracen_ed448ph_verify echo_prims [] [] (replicate 57 2) [1, 2, 3]
        (replicate 114 5) False) = SX_OK"
proof -
  have h: "length [1 :: byte, 2, 3] \<noteq> 114"
    by simp
  from digested_length_not_checked [where P = echo_prims and hm = "[]" and fr = zero_frame
      and priv_key = "replicate 57 17" and signature = "[]" and message = "[1, 2, 3]"
      and md = "[]" and digest = "[]" and pub_key = "replicate 57 2"
      and sig = "replicate 114 5"] echo_prims_succeed h
  show ?thesis
    by blast
qed

subsection \<open>The curve contract\<close>

lemma curve_ok_facts:
  assumes "curve_ok C"
  shows "0 < cv_order C" and "cv_order C \<le> 256 ^ 57"
    and "cv_on_curve C (cv_zero C)" and "cv_on_curve C (cv_base C)"
    and "\<And>p q. cv_on_curve C p \<Longrightarrow> cv_on_curve C q \<Longrightarrow> cv_on_curve C (cv_add C p q)"
    and "\<And>p q r. cv_on_curve C p \<Longrightarrow> cv_on_curve C q \<Longrightarrow> cv_on_curve C r \<Longrightarrow>
           cv_add C (cv_add C p q) r = cv_add C p (cv_add C q r)"
    and "\<And>p q. cv_on_curve C p \<Longrightarrow> cv_on_curve C q \<Longrightarrow> cv_add C p q = cv_add C q p"
    and "\<And>p. cv_on_curve C p \<Longrightarrow> cv_add C (cv_zero C) p = p"
    and "cv_mult C (cv_order C) (cv_base C) = cv_zero C"
    and "\<And>p. cv_on_curve C p \<Longrightarrow> cv_decode C (cv_encode C p) = Some p"
    and "\<And>p. cv_on_curve C p \<Longrightarrow> length (cv_encode C p) = 57"
  using assms unfolding curve_ok_def by blast+

lemma cv_mult_0: "cv_mult C 0 p = cv_zero C"
  by (simp add: cv_mult.simps)

lemma cv_mult_step:
  assumes ok: "curve_ok C" and p: "cv_on_curve C p"
  shows "cv_on_curve C (cv_mult C n p) \<and> cv_mult C (Suc n) p = cv_add C p (cv_mult C n p)"
proof (induction n rule: less_induct)
  case (less n)
  note closed = curve_ok_facts(5) [OF ok]
  note assoc = curve_ok_facts(6) [OF ok]
  note comm = curve_ok_facts(7) [OF ok]
  note zero = curve_ok_facts(3) [OF ok]
  note lid = curve_ok_facts(8) [OF ok]
  show ?case
  proof (cases "n = 0")
    case True
    have "cv_mult C (Suc 0) p = cv_add C p (cv_add C (cv_zero C) (cv_zero C))"
      by (subst cv_mult.simps) (simp add: cv_mult_0 Let_def)
    with True zero lid show ?thesis
      by (simp add: cv_mult_0)
  next
    case False
    define h where "h = n div 2"
    define H where "H = cv_mult C h p"
    have hn: "h < n"
      using False by (simp add: h_def)
    from less.IH [OF hn] have onH: "cv_on_curve C H"
      and SucH: "cv_mult C (Suc h) p = cv_add C p H"
      by (simp_all add: H_def)
    have unf: "cv_mult C n p = (if even n then cv_add C H H else cv_add C p (cv_add C H H))"
      using False by (subst cv_mult.simps) (simp add: Let_def h_def H_def)
    have onHH: "cv_on_curve C (cv_add C H H)"
      using onH closed by simp
    have onpHH: "cv_on_curve C (cv_add C p (cv_add C H H))"
      using onHH p closed by simp
    show ?thesis
    proof (cases "even n")
      case True
      then have "Suc n div 2 = h"
        by (simp add: h_def)
      then have "cv_mult C (Suc n) p = cv_add C p (cv_add C H H)"
        using True by (subst cv_mult.simps) (simp add: Let_def H_def)
      with unf True onHH show ?thesis
        by simp
    next
      case odd: False
      then have "Suc n div 2 = Suc h"
        by (simp add: h_def)
      then have "cv_mult C (Suc n) p = cv_add C (cv_add C p H) (cv_add C p H)"
        using odd by (subst cv_mult.simps) (simp add: Let_def SucH)
      also have "\<dots> = cv_add C p (cv_add C H (cv_add C p H))"
        using assoc p onH closed by simp
      also have "cv_add C H (cv_add C p H) = cv_add C (cv_add C H p) H"
        using assoc p onH by simp
      also have "cv_add C H p = cv_add C p H"
        using comm p onH by simp
      also have "cv_add C (cv_add C p H) H = cv_add C p (cv_add C H H)"
        using assoc p onH by simp
      finally have "cv_mult C (Suc n) p = cv_add C p (cv_add C p (cv_add C H H))" .
      with unf odd onpHH show ?thesis
        by simp
    qed
  qed
qed

lemma cv_mult_on: "curve_ok C \<Longrightarrow> cv_on_curve C p \<Longrightarrow> cv_on_curve C (cv_mult C n p)"
  by (simp add: cv_mult_step)

lemma cv_mult_Suc:
  "curve_ok C \<Longrightarrow> cv_on_curve C p \<Longrightarrow> cv_mult C (Suc n) p = cv_add C p (cv_mult C n p)"
  by (simp add: cv_mult_step)

lemma cv_mult_add:
  assumes ok: "curve_ok C" and p: "cv_on_curve C p"
  shows "cv_mult C (m + n) p = cv_add C (cv_mult C m p) (cv_mult C n p)"
proof (induction m)
  case 0
  show ?case
    using curve_ok_facts(8) [OF ok] cv_mult_on [OF ok p] by (simp add: cv_mult_0)
next
  case (Suc m)
  have "cv_mult C (Suc m + n) p = cv_add C p (cv_mult C (m + n) p)"
    using cv_mult_Suc [OF ok p] by simp
  also have "\<dots> = cv_add C p (cv_add C (cv_mult C m p) (cv_mult C n p))"
    using Suc by simp
  also have "\<dots> = cv_add C (cv_add C p (cv_mult C m p)) (cv_mult C n p)"
    using curve_ok_facts(6) [OF ok] p cv_mult_on [OF ok p] by simp
  finally show ?case
    using cv_mult_Suc [OF ok p] by simp
qed

lemma cv_mult_zero:
  assumes ok: "curve_ok C"
  shows "cv_mult C n (cv_zero C) = cv_zero C"
proof (induction n)
  case 0
  show ?case by (simp add: cv_mult_0)
next
  case (Suc n)
  then show ?case
    using cv_mult_Suc [OF ok curve_ok_facts(3) [OF ok]] curve_ok_facts(8) [OF ok]
      curve_ok_facts(3) [OF ok]
    by simp
qed

lemma cv_mult_mult:
  assumes ok: "curve_ok C" and p: "cv_on_curve C p"
  shows "cv_mult C m (cv_mult C n p) = cv_mult C (m * n) p"
proof (induction m)
  case 0
  show ?case by (simp add: cv_mult_0)
next
  case (Suc m)
  have "cv_mult C (Suc m) (cv_mult C n p) =
      cv_add C (cv_mult C n p) (cv_mult C m (cv_mult C n p))"
    using cv_mult_Suc [OF ok cv_mult_on [OF ok p]] by simp
  also have "\<dots> = cv_mult C (n + m * n) p"
    using Suc cv_mult_add [OF ok p] by simp
  finally show ?case
    by simp
qed

lemma cv_mult_mod:
  assumes ok: "curve_ok C"
  shows "cv_mult C (n mod cv_order C) (cv_base C) = cv_mult C n (cv_base C)"
proof -
  let ?L = "cv_order C" and ?B = "cv_base C"
  note B = curve_ok_facts(4) [OF ok]
  have "cv_mult C n ?B = cv_mult C (n div ?L * ?L + n mod ?L) ?B"
    by simp
  also have "\<dots> = cv_add C (cv_mult C (n div ?L * ?L) ?B) (cv_mult C (n mod ?L) ?B)"
    by (rule cv_mult_add [OF ok B])
  also have "cv_mult C (n div ?L * ?L) ?B = cv_mult C (n div ?L) (cv_mult C ?L ?B)"
    by (simp add: cv_mult_mult [OF ok B])
  also have "\<dots> = cv_zero C"
    by (simp add: curve_ok_facts(9) [OF ok] cv_mult_zero [OF ok])
  finally show ?thesis
    using curve_ok_facts(8) [OF ok] cv_mult_on [OF ok B] by simp
qed

lemma length_nat_le: "length (nat_le n x) = n"
  by (induction n arbitrary: x) simp_all

lemma le_nat_nat_le: "x < 256 ^ n \<Longrightarrow> le_nat (nat_le n x) = x"
proof (induction n arbitrary: x)
  case 0
  then show ?case by simp
next
  case (Suc n)
  have "x div 256 < 256 ^ n"
    using Suc.prems by (simp add: less_mult_imp_div_less mult.commute)
  then have "le_nat (nat_le n (x div 256)) = x div 256"
    by (rule Suc.IH)
  moreover have "unat (of_nat (x mod 256) :: byte) = x mod 256"
    by (simp add: unat_of_nat)
  ultimately show ?case
    by simp
qed

lemma le_nat_zeros: "le_nat (replicate k 0) = 0"
  by (induction k) simp_all

lemma le_nat_append_zeros: "le_nat (xs @ replicate k 0) = le_nat xs"
  by (induction xs) (simp_all add: le_nat_zeros)


lemma curve_prims_fields:
  "cracen_hash_input (curve_prims C P) = cracen_hash_input P"
  "cracen_hash_all_inputs (curve_prims C P) = cracen_hash_all_inputs P"
  "decode_scalar_448 (curve_prims C P) = decode_scalar_448 P"
  "sx_ed448_ptmult (curve_prims C P) = curve_ptmult C"
  "sx_ed448_sign (curve_prims C P) = curve_sign C"
  "sx_ed448_verify (curve_prims C P) = curve_verify C"
  by (simp_all add: curve_prims_def)

lemma curve_prims_wf:
  assumes ok: "curve_ok C" and "hash_wf P"
  shows "prims_wf (curve_prims C P)"
  using assms curve_ok_facts(11) [OF ok] cv_mult_on [OF ok curve_ok_facts(4) [OF ok]]
  by (simp add: prims_wf_def hash_wf_def curve_prims_fields curve_ptmult_def curve_sign_def
      length_nat_le sz)

lemma curve_sign_status:
  assumes "hash_succeeds P"
  shows "sign_status (curve_prims C P) sk m ph = SX_OK"
  using assms
  by (simp add: sign_status_def vals curve_prims_fields curve_ptmult_def curve_sign_def
      hash_succeeds_def)

text \<open>The two halves of the signature under the curve contract.\<close>

lemma curve_point_R:
  "snd (sign_point_R (curve_prims C P) sk m ph) =
     cv_encode C (cv_mult C
       (le_nat (snd (sign_r_digest (curve_prims C P) sk m ph)) mod cv_order C) (cv_base C))"
  by (simp add: sign_point_R_def curve_prims_fields curve_ptmult_def)

lemma curve_pubkey_A:
  "snd (sign_pubkey_A (curve_prims C P) sk) =
     cv_encode C (cv_mult C
       (le_nat (sign_secret_scalar (curve_prims C P) sk) mod cv_order C) (cv_base C))"
  by (simp add: sign_pubkey_A_def curve_prims_fields curve_ptmult_def le_nat_append_zeros)

lemma curve_scalar_S:
  "snd (sign_scalar_S (curve_prims C P) sk m ph) =
     nat_le 57 ((le_nat (snd (sign_r_digest (curve_prims C P) sk m ph)) +
        le_nat (snd (sign_k_digest (curve_prims C P) sk m ph)) *
        le_nat (sign_secret_scalar (curve_prims C P) sk)) mod cv_order C)"
  by (simp add: sign_scalar_S_def curve_prims_fields curve_sign_def)

text \<open>The group equation that verification checks holds for what signing produced.\<close>

lemma curve_verify_signed:
  assumes ok: "curve_ok C"
  shows "curve_verify C k
     (cv_encode C (cv_mult C (s mod cv_order C) (cv_base C)))
     (nat_le 57 ((r + le_nat k * s) mod cv_order C))
     (cv_encode C (cv_mult C (r mod cv_order C) (cv_base C))) = SX_OK"
proof -
  let ?L = "cv_order C" and ?B = "cv_base C"
  note B = curve_ok_facts(4) [OF ok]
  have onR: "cv_on_curve C (cv_mult C (r mod ?L) ?B)"
    and onA: "cv_on_curve C (cv_mult C (s mod ?L) ?B)"
    by (simp_all add: cv_mult_on [OF ok B])
  have "(r + le_nat k * s) mod ?L < ?L"
    using curve_ok_facts(1) [OF ok] by simp
  then have "(r + le_nat k * s) mod ?L < 256 ^ 57"
    using curve_ok_facts(2) [OF ok] by simp
  then have S: "le_nat (nat_le 57 ((r + le_nat k * s) mod ?L)) = (r + le_nat k * s) mod ?L"
    by (rule le_nat_nat_le)
  have "cv_mult C ((r + le_nat k * s) mod ?L) ?B = cv_mult C (r + le_nat k * s) ?B"
    by (rule cv_mult_mod [OF ok])
  also have "\<dots> = cv_add C (cv_mult C r ?B) (cv_mult C (le_nat k * s) ?B)"
    by (rule cv_mult_add [OF ok B])
  also have "cv_mult C (le_nat k * s) ?B = cv_mult C (le_nat k) (cv_mult C s ?B)"
    by (simp add: cv_mult_mult [OF ok B])
  also have "cv_mult C s ?B = cv_mult C (s mod ?L) ?B"
    by (simp add: cv_mult_mod [OF ok])
  also have "cv_mult C r ?B = cv_mult C (r mod ?L) ?B"
    by (simp add: cv_mult_mod [OF ok])
  finally have eq: "cv_mult C ((r + le_nat k * s) mod ?L) ?B =
      cv_add C (cv_mult C (r mod ?L) ?B) (cv_mult C (le_nat k) (cv_mult C (s mod ?L) ?B))" .
  show ?thesis
    using eq
    by (simp add: curve_verify_def curve_ok_facts(10) [OF ok onR]
        curve_ok_facts(10) [OF ok onA] S)
qed


lemma toy_curve_mult: "p < 7 \<Longrightarrow> cv_mult toy_curve n p = (n * p) mod 7"
proof (induction n rule: less_induct)
  case (less n)
  show ?case
  proof (cases "n = 0")
    case True
    then show ?thesis
      by (simp add: cv_mult_0 toy_curve_def)
  next
    case False
    then have "n div 2 < n"
      by simp
    from less.IH [OF this less.prems]
    have h: "cv_mult toy_curve (n div 2) p = (n div 2 * p) mod 7" .
    have add: "cv_add toy_curve a b = (a + b) mod 7" for a b
      by (simp add: toy_curve_def)
    have "(n div 2 * p mod 7 + n div 2 * p mod 7) mod 7 = (2 * (n div 2) * p) mod 7"
      by (simp add: mod_add_eq mult_2 distrib_right)
    moreover have "(p + (2 * (n div 2) * p) mod 7) mod 7 = ((2 * (n div 2) + 1) * p) mod 7"
      by (simp add: mod_add_right_eq distrib_right add.commute)
    ultimately show ?thesis
      using False
      by (subst cv_mult.simps) (auto simp: Let_def h add elim!: evenE oddE)
  qed
qed

lemma toy_curve_ok: "curve_ok toy_curve"
proof -
  have m: "cv_mult toy_curve (cv_order toy_curve) (cv_base toy_curve) = cv_zero toy_curve"
    using toy_curve_mult [of 1 7] by (simp add: toy_curve_def)
  have e: "p < 7 \<Longrightarrow> le_nat (nat_le 57 p) = p" for p
    by (rule le_nat_nat_le) simp
  show ?thesis
    unfolding curve_ok_def
    using m e
    by (simp add: toy_curve_def length_nat_le mod_simps ac_simps)
qed

subsection \<open>Signatures under the curve contract\<close>

text \<open>
  C8: a successful sign call stores exactly 114 bytes at the start of the signature
  buffer, the 57-byte encoding of R = [r]B followed by the 57-byte encoding of
  S = (r + k * s) mod L, where r and k are the nonce and challenge digests and s the
  decoded secret scalar, read as little-endian numbers; the rest of the buffer is as
  before. The curve primitives are the ones modelled from their contracts.
\<close>

theorem signature_layout:
  assumes "curve_ok C" and "hash_wf P" and "frame_ok fr"
    and "sr_status (ed448_sign_internal (curve_prims C P) fr priv_key signature message prehash)
           = SX_OK"
  shows "(let r = le_nat (snd (sign_r_digest (curve_prims C P) priv_key message prehash));
              k = le_nat (snd (sign_k_digest (curve_prims C P) priv_key message prehash));
              s = le_nat (sign_secret_scalar (curve_prims C P) priv_key);
              enc_R = cv_encode C (cv_mult C r (cv_base C));
              enc_S = nat_le 57 ((r + k * s) mod cv_order C)
          in sr_signature
               (ed448_sign_internal (curve_prims C P) fr priv_key signature message prehash) =
               enc_R @ enc_S @ drop 114 signature
             \<and> length enc_R = 57 \<and> length enc_S = 57)"
proof -
  let ?P = "curve_prims C P"
  note wf = curve_prims_wf [OF assms(1,2)]
  from assms(4) have st: "sign_status ?P priv_key message prehash = SX_OK"
    by (simp add: sign_internal_status [OF wf assms(3)])
  have R: "snd (sign_point_R ?P priv_key message prehash) =
      cv_encode C (cv_mult C (le_nat (snd (sign_r_digest ?P priv_key message prehash)))
        (cv_base C))"
    by (simp add: curve_point_R cv_mult_mod [OF assms(1)])
  have lR: "length (cv_encode C (cv_mult C
      (le_nat (snd (sign_r_digest ?P priv_key message prehash))) (cv_base C))) = 57"
    using curve_ok_facts(11) [OF assms(1)]
      cv_mult_on [OF assms(1) curve_ok_facts(4) [OF assms(1)]]
    by simp
  show ?thesis
    using sign_internal_ok [OF wf assms(3) st, of signature] lR
    by (simp add: Let_def R curve_scalar_S wr_0 length_nat_le)
qed

theorem signature_layout_witness:
  "curve_ok toy_curve \<and> hash_wf echo_prims \<and> frame_ok zero_frame
   \<and> sr_status (ed448_sign_internal (curve_prims toy_curve echo_prims) zero_frame
        (replicate 57 17) (replicate 120 9) [1] False) = SX_OK
   \<and> (let r = le_nat (snd (sign_r_digest (curve_prims toy_curve echo_prims)
                  (replicate 57 17) [1] False));
          k = le_nat (snd (sign_k_digest (curve_prims toy_curve echo_prims)
                  (replicate 57 17) [1] False));
          s = le_nat (sign_secret_scalar (curve_prims toy_curve echo_prims) (replicate 57 17));
          enc_R = cv_encode toy_curve (cv_mult toy_curve r (cv_base toy_curve));
          enc_S = nat_le 57 ((r + k * s) mod cv_order toy_curve)
      in sr_signature (ed448_sign_internal (curve_prims toy_curve echo_prims) zero_frame
           (replicate 57 17) (replicate 120 9) [1] False) =
           enc_R @ enc_S @ drop 114 (replicate 120 9)
         \<and> length enc_R = 57 \<and> length enc_S = 57)"
proof -
  have "hash_succeeds echo_prims"
    using echo_prims_succeed by (simp add: prims_succeed_def)
  then have h: "sr_status (ed448_sign_internal (curve_prims toy_curve echo_prims) zero_frame
      (replicate 57 17) (replicate 120 9) [1] False) = SX_OK"
    by (simp add: sign_internal_status [OF curve_prims_wf [OF toy_curve_ok echo_hash_wf]
          zero_frame_ok] curve_sign_status)
  from signature_layout [OF toy_curve_ok echo_hash_wf zero_frame_ok h]
    toy_curve_ok echo_hash_wf zero_frame_ok h
  show ?thesis
    by blast
qed

text \<open>
  C5: with the curve primitives modelled from their contracts and a hash engine that
  does not fail, verifying a pure-mode signature of any message under the public key
  derived from the same private key returns \<^verbatim>\<open>SX_OK\<close>, and so do the signing and the
  key derivation.
\<close>

theorem sign_verify_roundtrip:
  assumes "curve_ok C" and "hash_wf P" and "hash_succeeds P"
    and "frame_ok fr" and "length digest = 114"
  shows "sr_status (cracen_ed448_sign (curve_prims C P) fr priv_key signature message) = SX_OK
     \<and> pk_status (cracen_ed448_create_pubkey (curve_prims C P) digest priv_key pub_key) = SX_OK
     \<and> vr_status (cracen_ed448_verify (curve_prims C P) vdigest
          (pk_pub_key (cracen_ed448_create_pubkey (curve_prims C P) digest priv_key pub_key))
          message
          (sr_signature (cracen_ed448_sign (curve_prims C P) fr priv_key signature message)))
        = SX_OK"
proof -
  let ?P = "curve_prims C P"
  let ?kd = "snd (sign_key_digest ?P priv_key)"
  let ?s = "sign_secret_scalar ?P priv_key"
  let ?r = "snd (sign_r_digest ?P priv_key message False)"
  let ?R = "snd (sign_point_R ?P priv_key message False)"
  let ?A = "snd (sign_pubkey_A ?P priv_key)"
  let ?k = "snd (sign_k_digest ?P priv_key message False)"
  let ?S = "snd (sign_scalar_S ?P priv_key message False)"
  note ok = assms(1)
  note wf = curve_prims_wf [OF assms(1,2)]
  note len = prims_wf_lengths [OF wf]
  have st: "sign_status ?P priv_key message False = SX_OK"
    by (rule curve_sign_status [OF assms(3)])
  then have sts: "fst (sign_key_digest ?P priv_key) = SX_OK"
    "fst (sign_point_R ?P priv_key message False) = SX_OK"
    "fst (sign_pubkey_A ?P priv_key) = SX_OK"
    "fst (sign_k_digest ?P priv_key message False) = SX_OK"
    "fst (sign_scalar_S ?P priv_key message False) = SX_OK"
    by (simp_all add: sign_status_OK)
  have lkd: "length ?kd = 114"
    using sts(1) len(1) by (simp add: sign_key_digest_def)
  have ls: "length ?s = 57"
    using lkd len(5) by (simp add: sign_secret_scalar_def length_rd)
  have lR: "length ?R = 57"
    using sts(2) len(3) by (simp add: sign_point_R_def)
  have lA: "length ?A = 57"
    using sts(3) len(3) by (simp add: sign_pubkey_A_def)
  have lk: "length ?k = 114"
    using sts(4) len(2) by (simp add: sign_k_digest_def)
  have lS: "length ?S = 57"
    using sts(5) len(4) by (simp add: sign_scalar_S_def)
  have sg: "cracen_ed448_sign ?P fr priv_key signature message =
      \<lparr>sr_status = SX_OK, sr_signature = wr signature 0 (?R @ ?S),
       sr_workmem = replicate 285 0, sr_pnt_r = ?R @ ?S\<rparr>"
    unfolding cracen_ed448_sign_def by (rule sign_internal_ok [OF wf assms(4) st])
  have pk: "cracen_ed448_create_pubkey ?P digest priv_key pub_key =
      \<lparr>pk_status = SX_OK, pk_pub_key = wr pub_key 0 ?A, pk_digest = replicate 114 0\<rparr>"
    by (rule create_pubkey_exec [where kd = ?kd and s = ?s])
      (insert sts lkd ls lA assms(5), simp_all add: vals prod_eq_iff)
  have rdR: "rd (wr signature 0 (?R @ ?S)) 0 57 = ?R"
    and rdS: "rd (wr signature 0 (?R @ ?S)) 57 57 = ?S"
    and rdA: "rd (wr pub_key 0 ?A) 0 57 = ?A"
    using lR lS lA by (simp_all add: wr_0 rd_def)
  have kh: "cracen_hash_all_inputs ?P
      (if False then [dom4, rd (wr signature 0 (?R @ ?S)) 0 57, rd (wr pub_key 0 ?A) 0 57, message]
       else [rd (wr signature 0 (?R @ ?S)) 0 57, rd (wr pub_key 0 ?A) 0 57, message])
      sxhashalg_shake256_114 = (SX_OK, ?k)"
    using sts(4) unfolding rdR rdA by (simp add: sign_k_digest_def prod_eq_iff)
  have vr: "vr_status (cracen_ed448_verify ?P vdigest (wr pub_key 0 ?A) message
      (wr signature 0 (?R @ ?S))) = curve_verify C ?k ?A ?S ?R"
    unfolding cracen_ed448_verify_def verify_internal_exec [OF kh lk]
    by (simp add: rdR rdS rdA curve_prims_fields)
  have "curve_verify C ?k ?A ?S ?R = SX_OK"
    unfolding curve_point_R curve_pubkey_A curve_scalar_S
    by (rule curve_verify_signed [OF ok])
  with vr show ?thesis
    by (simp add: sg pk)
qed

theorem sign_verify_roundtrip_witness:
  "curve_ok toy_curve \<and> hash_wf echo_prims \<and> hash_succeeds echo_prims
   \<and> frame_ok zero_frame \<and> length (replicate 114 (0 :: byte)) = 114
   \<and> vr_status (cracen_ed448_verify (curve_prims toy_curve echo_prims) (replicate 114 0)
        (pk_pub_key (cracen_ed448_create_pubkey (curve_prims toy_curve echo_prims)
           (replicate 114 0) (replicate 57 17) (replicate 57 0)))
        []
        (sr_signature (cracen_ed448_sign (curve_prims toy_curve echo_prims) zero_frame
           (replicate 57 17) (replicate 114 0) []))) = SX_OK"
proof -
  have h3: "hash_succeeds echo_prims"
    using echo_prims_succeed by (simp add: prims_succeed_def)
  have h5: "length (replicate 114 (0 :: byte)) = 114"
    by simp
  from sign_verify_roundtrip [OF toy_curve_ok echo_hash_wf h3 zero_frame_ok h5]
    toy_curve_ok echo_hash_wf h3 zero_frame_ok h5
  show ?thesis
    by blast
qed

end
